theory Spec2Isabelle
  imports Main "HOL-Library.Sublist"
begin

unbundle bit_operations_syntax

section \<open>Text\<close>

text \<open>
  A Python \<open>str\<close> is modelled as a \<open>string\<close>: one \<open>char\<close> per code point, for the code
  points 0 to 255. P1 telegrams are ASCII. On this range the character classes of the
  source are finite and written out below.
\<close>

definition CR :: char where
  "CR = CHR 0x0D"

definition LF :: char where
  "LF = CHR 0x0A"

definition CRLF :: string where
  "CRLF = [CR, LF]"

text \<open>
  \<open>str.isspace\<close> on one code point, as \<open>str.strip()\<close> uses it: TAB to CR, the four
  separators FS to US, SPACE, NEL and NO-BREAK SPACE.
\<close>

definition isspace :: "char \<Rightarrow> bool" where
  "isspace c = (let n = (of_char c :: nat) in
     (9 \<le> n \<and> n \<le> 13) \<or> (28 \<le> n \<and> n \<le> 31) \<or> n = 32 \<or> n = 133 \<or> n = 160)"

text \<open>\<open>str.strip()\<close> with no argument.\<close>

definition lstrip :: "string \<Rightarrow> string" where
  "lstrip s = dropWhile isspace s"

definition rstrip :: "string \<Rightarrow> string" where
  "rstrip s = rev (dropWhile isspace (rev s))"

definition strip :: "string \<Rightarrow> string" where
  "strip s = rstrip (lstrip s)"

text \<open>\<open>s.startswith(p)\<close>.\<close>

definition startswith :: "string \<Rightarrow> string \<Rightarrow> bool" where
  "startswith s p = prefix p s"

text \<open>\<open>s.replace(old, new)\<close> for a one-character \<open>old\<close> and \<open>new\<close>.\<close>

definition replace_char :: "char \<Rightarrow> char \<Rightarrow> string \<Rightarrow> string" where
  "replace_char old new s = map (\<lambda>c. if c = old then new else c) s"

text \<open>
  \<open>s.split(sep)\<close> for a non-empty separator: the text is cut at each occurrence of
  \<open>sep\<close>, found from left to right without overlap; \<open>cur\<close> holds the current piece
  reversed. Python raises \<open>ValueError\<close> for an empty separator; the source only
  passes the literals \<open>"!"\<close> and \<open>"\r\n"\<close>, and the model returns the text uncut.
\<close>

function split_from :: "string \<Rightarrow> string \<Rightarrow> string \<Rightarrow> string list" where
  "split_from sep cur [] = [rev cur]"
| "split_from sep cur (x # xs) =
     (if sep \<noteq> [] \<and> prefix sep (x # xs)
      then rev cur # split_from sep [] (drop (length sep) (x # xs))
      else split_from sep (x # cur) xs)"
  by pat_completeness auto

termination
  by (relation "measure (\<lambda>(sep, cur, s). length s)") (auto simp: neq_Nil_conv)

definition split :: "string \<Rightarrow> string \<Rightarrow> string list" where
  "split s sep = split_from sep [] s"

section \<open>Telegram framer\<close>

text \<open>
  The body of the loop \<open>while not checksum_found\<close> after the line has been read,
  decoded and stripped: the state is the pair \<open>(telegram, checksum_found)\<close>.
\<close>

definition feed :: "string \<Rightarrow> string \<Rightarrow> string \<times> bool" where
  "feed telegram telegram_line =
     (if startswith telegram_line ''!'' then (telegram @ telegram_line, True)
      else if telegram_line \<noteq> [] then (telegram @ telegram_line @ CRLF, False)
      else (telegram, False))"

text \<open>
  What one pass through \<open>ser.readline()\<close> and \<open>str(raw_line, 'utf-8')\<close> delivers:
  the decoded text of the line, or an exception of class \<open>Exception\<close> raised by the read
  or by the decoding. A read that times out returns the bytes received so far, which
  may be none: \<open>Rx []\<close>.
\<close>

datatype rx = Rx string | RxError

datatype loop_end = Found | Raised | Starved

text \<open>
  The loop over the reads the transport still has to deliver. It ends when
  \<open>checksum_found\<close> is set (\<open>Found\<close>) or when a read raises and the handler of the
  enclosing \<open>try\<close> takes over (\<open>Raised\<close>), and returns the telegram and the reads not
  yet consumed. When the reads run out the loop is still blocked in \<open>readline\<close>:
  \<open>Starved\<close>.
\<close>

fun read_lines :: "string \<Rightarrow> rx list \<Rightarrow> string \<times> loop_end \<times> rx list" where
  "read_lines telegram [] = (telegram, Starved, [])"
| "read_lines telegram (RxError # es) = (telegram, Raised, es)"
| "read_lines telegram (Rx raw_line # es) =
     (case feed telegram (strip raw_line) of
        (telegram', True) \<Rightarrow> (telegram', Found, es)
      | (telegram', False) \<Rightarrow> read_lines telegram' es)"

section \<open>Checksum\<close>

text \<open>
  \<open>s.encode('utf-8')\<close>: one byte below 128, two bytes from 128 to 255. A byte is a
  number below 256.
\<close>

definition encode_char :: "char \<Rightarrow> nat list" where
  "encode_char c = (let n = (of_char c :: nat) in
     if n < 128 then [n] else [192 + n div 64, 128 + n mod 64])"

definition encode_utf8 :: "string \<Rightarrow> nat list" where
  "encode_utf8 s = concat (map encode_char s)"

text \<open>
  \<open>crcmod.predefined.mkPredefinedCrcFun('crc16')\<close>: the library's entry \<open>crc16\<close> has
  polynomial 0x18005, bit-reversed processing, initial value 0 and no final XOR. In
  reversed form the polynomial is 0xA001. The library works from a table; the value is
  that of the bit-by-bit form below. The register only shifts to the right, so it stays
  below \<open>2 ^ 16\<close> without any masking.
\<close>

definition crc16_bit :: "nat \<Rightarrow> nat" where
  "crc16_bit crc = (if odd crc then (crc div 2) XOR 0xA001 else crc div 2)"

definition crc16_byte :: "nat \<Rightarrow> nat \<Rightarrow> nat" where
  "crc16_byte crc b = (crc16_bit ^^ 8) (crc XOR b)"

definition crc16 :: "nat list \<Rightarrow> int" where
  "crc16 bs = int (foldl crc16_byte 0 bs)"

text \<open>
  \<open>int(s, 16)\<close> on a \<open>str\<close>. First the text is brought to ASCII: a text with a code
  point from 128 on has its non-ASCII white space replaced by a space and is cut, with
  a question mark, at the first other code point from 127 on (there is no decimal digit
  from 128 to 255).
\<close>

fun transform_ascii :: "string \<Rightarrow> string" where
  "transform_ascii [] = []"
| "transform_ascii (c # cs) =
     (if (of_char c :: nat) < 127 then c # transform_ascii cs
      else if isspace c then CHR '' '' # transform_ascii cs
      else ''?'')"

definition to_ascii :: "string \<Rightarrow> string" where
  "to_ascii s = (if list_all (\<lambda>c. (of_char c :: nat) < 128) s then s else transform_ascii s)"

text \<open>The white space of the C parser: TAB to CR and SPACE.\<close>

definition c_isspace :: "char \<Rightarrow> bool" where
  "c_isspace c = (let n = (of_char c :: nat) in (9 \<le> n \<and> n \<le> 13) \<or> n = 32)"

definition digit_value :: "char \<Rightarrow> nat option" where
  "digit_value c = (let n = (of_char c :: nat) in
     if 48 \<le> n \<and> n \<le> 57 then Some (n - 48)
     else if 97 \<le> n \<and> n \<le> 102 then Some (n - 87)
     else if 65 \<le> n \<and> n \<le> 70 then Some (n - 55)
     else None)"

text \<open>
  The scan of the digits: hexadecimal digits with single underscores between them.
  \<open>prev\<close> tells whether the previous character was an underscore. The result is the
  value read so far and the text left, or \<open>None\<close> for two underscores in a row or an
  underscore at the end.
\<close>

fun scan_digits :: "bool \<Rightarrow> nat \<Rightarrow> string \<Rightarrow> (nat \<times> string) option" where
  "scan_digits prev acc [] = (if prev then None else Some (acc, []))"
| "scan_digits prev acc (c # cs) =
     (if c = CHR ''_'' then (if prev then None else scan_digits True acc cs)
      else (case digit_value c of
              Some d \<Rightarrow> scan_digits False (16 * acc + d) cs
            | None \<Rightarrow> (if prev then None else Some (acc, c # cs))))"

text \<open>
  The parser, base 16: leading white space, an optional sign, an optional prefix
  \<open>0x\<close> or \<open>0X\<close> with one underscore allowed after it, at least one digit, trailing white
  space, and nothing else. \<open>None\<close> is \<open>ValueError\<close>.
\<close>

definition skip_sign :: "string \<Rightarrow> int \<times> string" where
  "skip_sign s = (case s of
       c # cs \<Rightarrow> (if c = CHR ''+'' then (1, cs) else if c = CHR ''-'' then (- 1, cs) else (1, s))
     | [] \<Rightarrow> (1, s))"

definition skip_prefix :: "string \<Rightarrow> string" where
  "skip_prefix s = (case s of
       z # x # cs \<Rightarrow>
         (if z = CHR ''0'' \<and> (x = CHR ''x'' \<or> x = CHR ''X'')
          then (case cs of u # cs' \<Rightarrow> (if u = CHR ''_'' then cs' else cs) | [] \<Rightarrow> cs)
          else s)
     | _ \<Rightarrow> s)"

definition long_from_string :: "string \<Rightarrow> int option" where
  "long_from_string s =
     (let (sign, s1) = skip_sign (dropWhile c_isspace s);
          start = skip_prefix s1
      in if startswith start ''_'' then None
         else (case scan_digits False 0 start of
                 None \<Rightarrow> None
               | Some (v, rest) \<Rightarrow>
                   (if rest = start then None
                    else if dropWhile c_isspace rest \<noteq> [] then None
                    else Some (sign * int v))))"

definition int16 :: "string \<Rightarrow> int option" where
  "int16 s = long_from_string (to_ascii s)"

datatype error = IndexError | ValueError

text \<open>
  Line 141: \<open>int('0x' + telegram.split("!")[1], 16)\<close>. The index 1 raises
  \<open>IndexError\<close> when the telegram holds no exclamation mark.
\<close>

definition given_checksum :: "string \<Rightarrow> error + int" where
  "given_checksum telegram =
     (let parts = split telegram ''!'' in
      if length parts \<le> 1 then Inl IndexError
      else (case int16 (''0x'' @ parts ! 1) of
              None \<Rightarrow> Inl ValueError
            | Some v \<Rightarrow> Inr v))"

text \<open>
  Line 144: \<open>crc16(telegram.split("!")[0].encode('utf-8'))\<close>. A split has at least
  one piece.
\<close>

definition calculated_checksum :: "string \<Rightarrow> int" where
  "calculated_checksum telegram = crc16 (encode_utf8 (hd (split telegram ''!'')))"

section \<open>Field decoder\<close>

text \<open>
  The pattern \<open>(\d*-\d*:\d*.\d*.\d*)\<close> is a sequence of items, each a character class
  taken once or under a greedy star. \<open>\d\<close> is a decimal digit (from 0 to 255 only the
  ASCII digits), the dot is every character but the line feed.
\<close>

datatype cls = Digit | Dot | Lit char

datatype item = One cls | Star cls

fun in_cls :: "cls \<Rightarrow> char \<Rightarrow> bool" where
  "in_cls Digit c = (48 \<le> (of_char c :: nat) \<and> (of_char c :: nat) \<le> 57)"
| "in_cls Dot c = (c \<noteq> LF)"
| "in_cls (Lit x) c = (c = x)"

text \<open>
  \<open>re.match\<close>: a backtracking match at the start of the text, which returns the length
  of the first match in the order of the engine: a star takes as many characters as it
  can and gives them back one at a time when the rest of the pattern fails.
\<close>

fun match_items :: "item list \<Rightarrow> string \<Rightarrow> nat option" where
  "match_items [] s = Some 0"
| "match_items (One k # its) [] = None"
| "match_items (One k # its) (c # cs) =
     (if in_cls k c then map_option Suc (match_items its cs) else None)"
| "match_items (Star k # its) [] = match_items its []"
| "match_items (Star k # its) (c # cs) =
     (if in_cls k c
      then (case match_items (Star k # its) cs of
              Some n \<Rightarrow> Some (Suc n)
            | None \<Rightarrow> match_items its (c # cs))
      else match_items its (c # cs))"

definition obis_pattern :: "item list" where
  "obis_pattern =
     [Star Digit, One (Lit (CHR ''-'')), Star Digit, One (Lit (CHR '':'')),
      Star Digit, One Dot, Star Digit, One Dot, Star Digit]"

text \<open>\<open>match_result.group(1)\<close>: the group spans the whole pattern.\<close>

definition re_match :: "string \<Rightarrow> string option" where
  "re_match telegram_line =
     map_option (\<lambda>n. take n telegram_line) (match_items obis_pattern telegram_line)"

text \<open>Lines 161 to 167: the OBIS code and the value of one line, when the line matches.\<close>

definition decode_line :: "string \<Rightarrow> (string \<times> string) option" where
  "decode_line telegram_line =
     (case re_match telegram_line of
        None \<Rightarrow> None
      | Some obis_code \<Rightarrow>
          Some (obis_code,
                strip (replace_char (CHR '')'') (CHR '' '')
                        (replace_char (CHR ''('') (CHR '' '')
                           (drop (length obis_code) telegram_line)))))"

section \<open>Routing and publishing\<close>

definition list_of_interesting_codes :: "(string \<times> string) list" where
  "list_of_interesting_codes =
    [(''1-3:0.2.8'', ''status/dsmr_version''),
     (''0-0:1.0.0'', ''status/current_time''),
     (''0-0:96.1.1'', ''status/equipment_id''),
     (''0-0:96.14.0'', ''electricity/status/tariff_indicator''),
     (''0-0:17.0.0'', ''electricity/status/threshold''),
     (''0-0:96.7.21'', ''electricity/status/power_failures''),
     (''0-0:96.7.9'', ''electricity/status/long_power_failures''),
     (''1-0:99.97.0'', ''electricity/status/power_failure_event_log''),
     (''0-0:96.13.0'', ''status/text_message''),
     (''1-0:1.8.1'', ''electricity/cumulative/consumed/tariff_1''),
     (''1-0:1.8.2'', ''electricity/cumulative/consumed/tariff_2''),
     (''1-0:2.8.1'', ''electricity/cumulative/delivered/tariff_1''),
     (''1-0:2.8.2'', ''electricity/cumulative/delivered/tariff_2''),
     (''1-0:1.7.0'', ''electricity/actual/power/consumed/total''),
     (''1-0:21.7.0'', ''electricity/actual/power/consumed/phase_1''),
     (''1-0:41.7.0'', ''electricity/actual/power/consumed/phase_2''),
     (''1-0:61.7.0'', ''electricity/actual/power/consumed/phase_3''),
     (''1-0:2.7.0'', ''electricity/actual/power/delivered/total''),
     (''1-0:22.7.0'', ''electricity/actual/power/delivered/phase_1''),
     (''1-0:42.7.0'', ''electricity/actual/power/delivered/phase_2''),
     (''1-0:62.7.0'', ''electricity/actual/power/delivered/phase_3''),
     (''1-0:31.7.0'', ''electricity/actual/current/phase_1''),
     (''1-0:51.7.0'', ''electricity/actual/current/phase_2''),
     (''1-0:71.7.0'', ''electricity/actual/current/phase_3''),
     (''1-0:32.7.0'', ''electricity/actual/voltage/phase_1''),
     (''1-0:52.7.0'', ''electricity/actual/voltage/phase_2''),
     (''1-0:72.7.0'', ''electricity/actual/voltage/phase_3''),
     (''1-0:32.32.0'', ''electricity/status/voltage_sags/phase_1''),
     (''1-0:52.32.0'', ''electricity/status/voltage_sags/phase_2''),
     (''1-0:72.32.0'', ''electricity/status/voltage_sags/phase_3''),
     (''1-0:32.36.0'', ''electricity/status/voltage_swells/phase_1''),
     (''1-0:52.36.0'', ''electricity/status/voltage_swells/phase_2''),
     (''1-0:72.36.0'', ''electricity/status/voltage_swells/phase_3''),
     (''0-1:24.2.1'', ''gas/cumulative/consumed''),
     (''0-1:96.1.0'', ''gas/status/equipment_id'')]"

definition topic_prefix :: string where
  "topic_prefix = ''p1/''"

text \<open>
  Lines 171 to 175: the first argument of \<open>mqtt_client.publish\<close>. The keys of the
  dictionary literal are distinct, so the lookup in the list of pairs is the lookup in
  the dictionary.
\<close>

definition topic :: "string \<Rightarrow> string" where
  "topic obis_code =
     (case map_of list_of_interesting_codes obis_code of
        Some path \<Rightarrow> topic_prefix @ path
      | None \<Rightarrow> (topic_prefix @ ''unidentified_code/'') @ obis_code)"

text \<open>The messages one line of the telegram makes the sink receive: topic and payload.\<close>

definition publish_line :: "string \<Rightarrow> (string \<times> string) list" where
  "publish_line telegram_line =
     (case decode_line telegram_line of
        None \<Rightarrow> []
      | Some (obis_code, v) \<Rightarrow> [(topic obis_code, v)])"

text \<open>The loop \<open>for telegram_line in telegram.split("\r\n")\<close>.\<close>

definition publish_telegram :: "string \<Rightarrow> (string \<times> string) list" where
  "publish_telegram telegram = concat (map publish_line (split telegram CRLF))"

section \<open>Pipeline driver\<close>

text \<open>
  \<open>str(v)\<close> on an \<open>int\<close>, as lines 145 and 146 call it for the two checksums before
  printing them. From CPython 3.11 on the conversion to decimal text is limited, by
  default to 4300 digits (\<open>sys.int_info.default_max_str_digits\<close>): a value with more
  digits, that is an absolute value of \<open>10 ^ 4300\<close> or more, raises \<open>ValueError\<close>.
  \<open>int(s, 16)\<close> has no such limit.
\<close>

definition max_str_digits :: nat where
  "max_str_digits = 4300"

definition str_raises :: "int \<Rightarrow> bool" where
  "str_raises v = (10 ^ max_str_digits \<le> \<bar>v\<bar>)"

text \<open>
  Lines 139 to 175 on the telegram the read loop has left. \<open>Inl\<close> is an exception that
  nothing catches. Lines 145 and 146 turn the two checksums into text. Line 148 assigns
  the calculated checksum to \<open>given_checksum\<close> before the comparison of line 150.
\<close>

definition process_telegram :: "string \<Rightarrow> error + (string \<times> string) list" where
  "process_telegram telegram =
     (case given_checksum telegram of
        Inl e \<Rightarrow> Inl e
      | Inr given \<Rightarrow>
          (let calculated = calculated_checksum telegram in
           if str_raises given then Inl ValueError
           else if str_raises calculated then Inl ValueError
           else (let given' = calculated
                 in if given' = calculated then Inr (publish_telegram telegram) else Inr [])))"

text \<open>
  The loop \<open>while True\<close> over the reads the transport still has to deliver: all the
  messages published, and how the run ends. \<open>Crashed e\<close> is the exception \<open>e\<close> leaving the
  loop, which ends the process; \<open>Blocked\<close> is the read loop waiting for a line after the
  last read. Opening and closing the port are taken to succeed, the standard output
  to take every line printed, and the sink to take every message.
\<close>

datatype halt = Crashed error | Blocked

function driver :: "rx list \<Rightarrow> (string \<times> string) list \<times> halt" where
  "driver es =
     (case read_lines [] es of
        (telegram, Starved, rest) \<Rightarrow> ([], Blocked)
      | (telegram, Found, rest) \<Rightarrow>
          (case process_telegram telegram of
             Inl e \<Rightarrow> ([], Crashed e)
           | Inr msgs \<Rightarrow> (case driver rest of (more, h) \<Rightarrow> (msgs @ more, h)))
      | (telegram, Raised, rest) \<Rightarrow>
          (case process_telegram telegram of
             Inl e \<Rightarrow> ([], Crashed e)
           | Inr msgs \<Rightarrow> (case driver rest of (more, h) \<Rightarrow> (msgs @ more, h))))"
  by pat_completeness auto

termination
proof (relation "measure length", goal_cases)
  case 1
  show ?case by simp
next
  have shorter: "read_lines t es = (t', e, rest) \<Longrightarrow> e \<noteq> Starved \<Longrightarrow> length rest < length es"
    for t es t' e rest
  proof (induction es arbitrary: t)
    case Nil
    then show ?case by simp
  next
    case (Cons x es)
    show ?case
    proof (cases x)
      case RxError
      with Cons.prems show ?thesis by auto
    next
      case (Rx raw_line)
      obtain a b where f: "feed t (strip raw_line) = (a, b)" by force
      show ?thesis
      proof (cases b)
        case True
        with Cons.prems Rx f show ?thesis by auto
      next
        case False
        with Cons.prems Rx f have "read_lines a es = (t', e, rest)" by simp
        from Cons.IH [OF this Cons.prems(2)] show ?thesis by simp
      qed
    qed
  qed
  {
    case 2
    then show ?case using shorter [of "[]"] by (metis in_measure loop_end.distinct(3))
  next
    case 3
    then show ?case using shorter [of "[]"] by (metis in_measure loop_end.distinct(5))
  }
qed

declare driver.simps [simp del]

section \<open>The framer in the words of the specification\<close>

text \<open>
  The content the specification gives a telegram before its trailer line: every non-empty
  line, in order, each followed by CR and LF.
\<close>

definition content_lines :: "string list \<Rightarrow> string" where
  "content_lines ls = concat (map (\<lambda>l. l @ CRLF) (filter (\<lambda>l. l \<noteq> []) ls))"

section \<open>The identifier pattern in the words of the specification\<close>

text \<open>
  The pattern \<open>\d+-\d+:\d+\.\d+\.\d+\<close>: five groups of one or more digits, with
  literal dots.
\<close>

definition spec_pattern :: "item list" where
  "spec_pattern =
     [One Digit, Star Digit, One (Lit (CHR ''-'')), One Digit, Star Digit, One (Lit (CHR '':'')),
      One Digit, Star Digit, One (Lit (CHR ''.'')), One Digit, Star Digit, One (Lit (CHR ''.'')),
      One Digit, Star Digit]"

section \<open>Routing\<close>

lemma table_keys_distinct: "distinct (map fst list_of_interesting_codes)"
  by (simp add: list_of_interesting_codes_def)


lemma topic_mapped: "map_of list_of_interesting_codes c = Some p \<Longrightarrow> topic c = topic_prefix @ p"
  by (simp add: topic_def)


lemma topic_has_prefix: "prefix ''p1/'' (topic c)"
  by (simp add: topic_def topic_prefix_def split: option.split)

lemma publish_line_prefix: "(t, v) \<in> set (publish_line l) \<Longrightarrow> prefix ''p1/'' t"
  by (auto simp: publish_line_def topic_has_prefix split: option.splits)

lemma publish_telegram_prefix: "(t, v) \<in> set (publish_telegram tg) \<Longrightarrow> prefix ''p1/'' t"
  by (auto simp: publish_telegram_def dest: publish_line_prefix)

lemma process_telegram_prefix:
  "process_telegram tg = Inr msgs \<Longrightarrow> (t, v) \<in> set msgs \<Longrightarrow> prefix ''p1/'' t"
  by (auto simp: process_telegram_def Let_def dest: publish_telegram_prefix
      split: sum.splits if_splits)

section \<open>The driver loop\<close>

lemma read_lines_shorter:
  "read_lines t es = (t', e, rest) \<Longrightarrow> e \<noteq> Starved \<Longrightarrow> length rest < length es"
proof (induction es arbitrary: t)
  case Nil
  then show ?case by simp
next
  case (Cons x es)
  show ?case
  proof (cases x)
    case RxError
    with Cons.prems show ?thesis by auto
  next
    case (Rx raw_line)
    obtain a b where f: "feed t (strip raw_line) = (a, b)" by force
    show ?thesis
    proof (cases b)
      case True
      with Cons.prems Rx f show ?thesis by auto
    next
      case False
      with Cons.prems Rx f have "read_lines a es = (t', e, rest)" by simp
      from Cons.IH [OF this Cons.prems(2)] show ?thesis by simp
    qed
  qed
qed

lemma driver_starved: "read_lines [] es = (tg, Starved, rest) \<Longrightarrow> driver es = ([], Blocked)"
  by (simp add: driver.simps [of es])

lemma driver_crash:
  "read_lines [] es = (tg, e, rest) \<Longrightarrow> e \<noteq> Starved \<Longrightarrow> process_telegram tg = Inl err
   \<Longrightarrow> driver es = ([], Crashed err)"
  by (cases e) (simp_all add: driver.simps [of es])

lemma driver_next:
  "read_lines [] es = (tg, e, rest) \<Longrightarrow> e \<noteq> Starved \<Longrightarrow> process_telegram tg = Inr msgs
   \<Longrightarrow> driver es = (msgs @ fst (driver rest), snd (driver rest))"
  by (cases e) (simp_all add: driver.simps [of es] split: prod.splits)

lemma driver_prefix: "(t, v) \<in> set (fst (driver es)) \<Longrightarrow> prefix ''p1/'' t"
proof (induction es rule: measure_induct_rule [where f = length])
  case (less es)
  obtain tg e rest where r: "read_lines [] es = (tg, e, rest)"
    by (cases "read_lines [] es") auto
  show ?case
  proof (cases "e = Starved")
    case True
    with r less.prems show ?thesis by (simp add: driver_starved)
  next
    case False
    show ?thesis
    proof (cases "process_telegram tg")
      case (Inl err)
      with r False less.prems show ?thesis by (simp add: driver_crash)
    next
      case (Inr msgs)
      from less.prems driver_next [OF r False Inr]
      have "(t, v) \<in> set msgs \<or> (t, v) \<in> set (fst (driver rest))" by simp
      then show ?thesis
        using process_telegram_prefix [OF Inr] less.IH [OF read_lines_shorter [OF r False]]
        by blast
    qed
  qed
qed


section \<open>The checksums as text\<close>

lemma xor_below: "x < 2 ^ n \<Longrightarrow> y < 2 ^ n \<Longrightarrow> x XOR y < 2 ^ n" for x y :: nat
  by (metis take_bit_nat_eq_self_iff take_bit_xor)

lemma xor_below_65536: "x < 65536 \<Longrightarrow> y < 65536 \<Longrightarrow> x XOR y < 65536" for x y :: nat
  using xor_below [of x 16 y] by simp

lemma crc16_bit_below:
  assumes "crc < 65536"
  shows "crc16_bit crc < 65536"
proof -
  from assms have h: "crc div 2 < 65536" by arith
  from xor_below_65536 [OF h, of "0xA001"] h show ?thesis by (simp add: crc16_bit_def)
qed

lemma crc16_byte_below:
  assumes "crc < 65536" and "b < 256"
  shows "crc16_byte crc b < 65536"
proof -
  from assms have x: "crc XOR b < 65536" by (intro xor_below_65536) simp_all
  have "(crc16_bit ^^ k) c < 65536" if "c < 65536" for k c
    using that by (induction k) (simp_all add: crc16_bit_below)
  from this [OF x] show ?thesis by (simp add: crc16_byte_def)
qed

lemma foldl_crc16_below:
  "crc < 65536 \<Longrightarrow> \<forall>b \<in> set bs. b < 256 \<Longrightarrow> foldl crc16_byte crc bs < 65536"
  by (induction bs arbitrary: crc) (simp_all add: crc16_byte_below)

lemma encode_utf8_bytes: "\<forall>b \<in> set (encode_utf8 s). b < 256"
proof -
  have "of_char c < (256 :: nat)" for c :: char
    by (metis of_char_mod_256 mod_less_divisor zero_less_numeral)
  then have "(of_char c :: nat) div 64 < 4" for c :: char
    by (simp add: less_mult_imp_div_less)
  then have "\<forall>b \<in> set (encode_char c). b < 256" for c
    by (auto simp: encode_char_def Let_def intro: less_trans [of _ 4]
        dest: spec [of _ c])
  then show ?thesis by (auto simp: encode_utf8_def)
qed

lemma crc16_below: "crc16 (encode_utf8 s) < 65536"
  using foldl_crc16_below [of 0 "encode_utf8 s"] encode_utf8_bytes [of s]
  by (simp add: crc16_def)


lemma small_has_text: "\<bar>v\<bar> < 100000 \<Longrightarrow> \<not> str_raises v"
proof -
  assume v: "\<bar>v\<bar> < 100000"
  have "(10 :: int) ^ 5 \<le> 10 ^ max_str_digits"
    by (rule power_increasing) (simp_all add: max_str_digits_def)
  with v show ?thesis by (simp add: str_raises_def)
qed

lemma zero_has_text: "\<not> str_raises 0"
  by (rule small_has_text) simp

lemma calculated_has_text: "\<not> str_raises (calculated_checksum tg)"
proof (rule small_has_text)
  have "0 \<le> calculated_checksum tg" by (simp add: calculated_checksum_def crc16_def)
  with crc16_below [of "hd (split tg ''!'')"] show "\<bar>calculated_checksum tg\<bar> < 100000"
    by (simp add: calculated_checksum_def)
qed

lemma process_telegram_passes:
  "given_checksum tg = Inr g \<Longrightarrow> \<not> str_raises g
   \<Longrightarrow> process_telegram tg = Inr (publish_telegram tg)"
  by (simp add: process_telegram_def calculated_has_text)








lemma decode_equipment_line:
  "decode_line ''0-1:96.1.0(ABC123)'' = Some (''0-1:96.1.0'', ''ABC123'')"
  by code_simp

lemma lookup_gas_equipment:
  "map_of list_of_interesting_codes ''0-1:96.1.0'' = Some ''gas/status/equipment_id''"
  by (simp add: list_of_interesting_codes_def)

text \<open>
  C7 as stated fails: \<open>0-1:96.1.0\<close> is a key of the table, and the line
  \<open>0-1:96.1.0(ABC123)\<close> is not published under the fallback destination, with or
  without the topic prefix.
\<close>

theorem gas_equipment_id_not_fallback:
  "map_of list_of_interesting_codes ''0-1:96.1.0'' \<noteq> None \<and>
   publish_line ''0-1:96.1.0(ABC123)'' \<noteq> [(''unidentified_code/0-1:96.1.0'', ''ABC123'')] \<and>
   publish_line ''0-1:96.1.0(ABC123)'' \<noteq> [(''p1/unidentified_code/0-1:96.1.0'', ''ABC123'')]"
  by (simp add: publish_line_def decode_equipment_line topic_mapped [OF lookup_gas_equipment]
      lookup_gas_equipment topic_prefix_def)

text \<open>
  C7, amended: the line \<open>0-1:96.1.0(ABC123)\<close> decodes to the identifier
  \<open>0-1:96.1.0\<close> and the value \<open>ABC123\<close>; the identifier is a key of the table, and
  the value is published to \<open>p1/gas/status/equipment_id\<close>.
\<close>

theorem gas_equipment_id_routed:
  "decode_line ''0-1:96.1.0(ABC123)'' = Some (''0-1:96.1.0'', ''ABC123'') \<and>
   map_of list_of_interesting_codes ''0-1:96.1.0'' = Some ''gas/status/equipment_id'' \<and>
   publish_line ''0-1:96.1.0(ABC123)'' = [(''p1/gas/status/equipment_id'', ''ABC123'')]"
  by (simp add: publish_line_def decode_equipment_line topic_mapped [OF lookup_gas_equipment]
      lookup_gas_equipment topic_prefix_def)

lemma read_two_lines:
  "read_lines [] [Rx ''0-1:96.1.0(ABC123)'', Rx ''9-9:9.9.9(1)'', Rx ''!0'']
     = (''0-1:96.1.0(ABC123)'' @ CRLF @ ''9-9:9.9.9(1)'' @ CRLF @ ''!0'', Found, [])"
  by code_simp

lemma given_two_lines:
  "given_checksum (''0-1:96.1.0(ABC123)'' @ CRLF @ ''9-9:9.9.9(1)'' @ CRLF @ ''!0'') = Inr 0"
  by code_simp

lemma publish_two_lines:
  "publish_telegram (''0-1:96.1.0(ABC123)'' @ CRLF @ ''9-9:9.9.9(1)'' @ CRLF @ ''!0'')
     = [(''p1/gas/status/equipment_id'', ''ABC123''), (''p1/unidentified_code/9-9:9.9.9'', ''1'')]"
  by code_simp

lemma driver_two_lines:
  "driver [Rx ''0-1:96.1.0(ABC123)'', Rx ''9-9:9.9.9(1)'', Rx ''!0'']
     = ([(''p1/gas/status/equipment_id'', ''ABC123''), (''p1/unidentified_code/9-9:9.9.9'', ''1'')],
        Blocked)"
proof -
  have e: "driver [] = ([], Blocked)" by (simp add: driver_starved [of "[]" "[]" "[]"])
  have "driver [Rx ''0-1:96.1.0(ABC123)'', Rx ''9-9:9.9.9(1)'', Rx ''!0'']
          = (publish_telegram (''0-1:96.1.0(ABC123)'' @ CRLF @ ''9-9:9.9.9(1)'' @ CRLF @ ''!0'')
               @ fst (driver []), snd (driver []))"
    by (rule driver_next [OF read_two_lines _ process_telegram_passes [OF given_two_lines zero_has_text]]) simp
  then show ?thesis unfolding publish_two_lines e by simp
qed

text \<open>
  C9: every destination passed to the sink in a run of the driver, for a key of the table
  or for the fallback, begins with \<open>p1/\<close>.
\<close>

theorem published_topics_prefixed:
  "\<forall>(t, v) \<in> set (fst (driver es)). prefix ''p1/'' t"
  using driver_prefix by auto

text \<open>
  Witness for C9: a telegram with a line for a key of the table and a line for an
  identifier outside it.
\<close>

theorem published_topics_prefixed_witness:
  "(''p1/unidentified_code/9-9:9.9.9'', ''1'')
     \<in> set (fst (driver [Rx ''0-1:96.1.0(ABC123)'', Rx ''9-9:9.9.9(1)'', Rx ''!0''])) \<and>
   prefix ''p1/'' ''p1/unidentified_code/9-9:9.9.9''"
  using published_topics_prefixed [of "[Rx ''0-1:96.1.0(ABC123)'', Rx ''9-9:9.9.9(1)'', Rx ''!0'']"]
  by (simp add: driver_two_lines)

section \<open>Framing\<close>

lemma strip_Nil: "strip [] = []"
  by (simp add: strip_def lstrip_def rstrip_def)

lemma lstrip_clean: "lstrip s = [] \<or> \<not> isspace (hd (lstrip s))"
  unfolding lstrip_def by (metis hd_dropWhile)

lemma rstrip_clean: "rstrip s = [] \<or> \<not> isspace (last (rstrip s))"
  unfolding rstrip_def by (metis hd_dropWhile last_rev rev_is_Nil_conv)

lemma rstrip_keeps_head:
  assumes "s \<noteq> []" and "\<not> isspace (hd s)"
  shows "rstrip s \<noteq> [] \<and> hd (rstrip s) = hd s"
proof -
  from assms(1) obtain x xs where s: "s = x # xs" by (cases s) auto
  with assms(2) have "dropWhile isspace (rev xs @ [x]) = dropWhile isspace (rev xs) @ [x]"
    by (simp add: dropWhile_append)
  with s show ?thesis by (simp add: rstrip_def)
qed

lemma strip_fixed:
  assumes "s \<noteq> []" and "\<not> isspace (hd s)" and "\<not> isspace (last s)"
  shows "strip s = s"
proof -
  from assms(1,2) have l: "lstrip s = s" by (cases s) (simp_all add: lstrip_def)
  from assms(1) obtain a list where r: "rev s = a # list" by (cases "rev s") auto
  then have "s = rev list @ [a]" by (simp add: rev_eq_Cons_iff)
  with assms(3) have "\<not> isspace a" by simp
  with r have "dropWhile isspace (rev s) = rev s" by simp
  then have "rstrip s = s" by (simp add: rstrip_def)
  with l show ?thesis by (simp add: strip_def)
qed

lemma strip_idem: "strip (strip s) = strip s"
proof (cases "lstrip s = []")
  case True
  then have e: "strip s = []" by (simp add: strip_def rstrip_def)
  show ?thesis unfolding e by (rule strip_Nil)
next
  case False
  with lstrip_clean [of s] have h: "\<not> isspace (hd (lstrip s))" by blast
  from rstrip_keeps_head [OF False h] have "strip s \<noteq> []" "\<not> isspace (hd (strip s))"
    using h by (simp_all add: strip_def)
  moreover from rstrip_clean [of "lstrip s"] \<open>strip s \<noteq> []\<close>
  have "\<not> isspace (last (strip s))" by (simp add: strip_def)
  ultimately show ?thesis by (rule strip_fixed)
qed

lemma set_strip: "set (strip s) \<subseteq> set s"
  unfolding strip_def rstrip_def lstrip_def
  by (metis set_dropWhileD set_rev subsetI)

lemma feed_trailer: "startswith l ''!'' \<Longrightarrow> feed t l = (t @ l, True)"
  by (simp add: feed_def)

lemma read_lines_content:
  "\<forall>r \<in> set pre. \<not> startswith (strip r) ''!''
   \<Longrightarrow> read_lines t (map Rx pre @ es) = read_lines (t @ content_lines (map strip pre)) es"
proof (induction pre arbitrary: t)
  case Nil
  show ?case by (simp add: content_lines_def)
next
  case (Cons r pre)
  then show ?case by (simp add: feed_def content_lines_def)
qed

lemma read_lines_trailer:
  assumes "\<forall>r \<in> set pre. \<not> startswith (strip r) ''!''" and "startswith (strip tr) ''!''"
  shows "read_lines t (map Rx pre @ Rx tr # es)
           = (t @ content_lines (map strip pre) @ strip tr, Found, es)"
  using assms(2) by (simp add: read_lines_content [OF assms(1)] feed_trailer)

lemma read_lines_waiting:
  assumes "\<forall>r \<in> set raws. \<not> startswith (strip r) ''!''"
  shows "read_lines t (map Rx raws) = (t @ content_lines (map strip raws), Starved, [])"
  using read_lines_content [OF assms, of t "[]"] by simp

text \<open>
  C4: for the lines fed to the framer since the last completion (the reads, decoded and
  stripped), the loop ends with the frame complete exactly when one of them begins with
  the exclamation mark. The telegram is then what was there before, followed by the
  non-empty lines ahead of the first such line, each with CR and LF, in order, followed
  by that line as it is; the reads after it are left for the next telegram. Without
  such a line the loop is still waiting, with the non-empty lines accumulated.
\<close>

theorem framer_contract:
  "(fst (snd (read_lines t (map Rx raws))) = Found
      \<longleftrightarrow> (\<exists>r \<in> set raws. startswith (strip r) ''!'')) \<and>
   (\<forall>pre tr rest.
      raws = pre @ tr # rest \<and> (\<forall>r \<in> set pre. \<not> startswith (strip r) ''!'')
        \<and> startswith (strip tr) ''!''
      \<longrightarrow> read_lines t (map Rx raws)
            = (t @ content_lines (map strip pre) @ strip tr, Found, map Rx rest)) \<and>
   ((\<forall>r \<in> set raws. \<not> startswith (strip r) ''!'')
      \<longrightarrow> read_lines t (map Rx raws) = (t @ content_lines (map strip raws), Starved, []))"
proof (intro conjI allI impI)
  show "fst (snd (read_lines t (map Rx raws))) = Found
          \<longleftrightarrow> (\<exists>r \<in> set raws. startswith (strip r) ''!'')"
  proof
    assume found: "fst (snd (read_lines t (map Rx raws))) = Found"
    show "\<exists>r \<in> set raws. startswith (strip r) ''!''"
    proof (rule ccontr)
      assume "\<not> (\<exists>r \<in> set raws. startswith (strip r) ''!'')"
      then have "\<forall>r \<in> set raws. \<not> startswith (strip r) ''!''" by blast
      from read_lines_waiting [OF this, of t] found show False by simp
    qed
  next
    assume "\<exists>r \<in> set raws. startswith (strip r) ''!''"
    then obtain pre tr rest where "raws = pre @ tr # rest" "startswith (strip tr) ''!''"
      "\<forall>r \<in> set pre. \<not> startswith (strip r) ''!''"
      by (auto dest!: split_list_first_prop)
    with read_lines_trailer [of pre tr t "map Rx rest"]
    show "fst (snd (read_lines t (map Rx raws))) = Found" by simp
  qed
next
  fix pre tr rest
  assume "raws = pre @ tr # rest \<and> (\<forall>r \<in> set pre. \<not> startswith (strip r) ''!'')
            \<and> startswith (strip tr) ''!''"
  with read_lines_trailer [of pre tr t "map Rx rest"]
  show "read_lines t (map Rx raws)
          = (t @ content_lines (map strip pre) @ strip tr, Found, map Rx rest)" by simp
next
  assume "\<forall>r \<in> set raws. \<not> startswith (strip r) ''!''"
  then show "read_lines t (map Rx raws) = (t @ content_lines (map strip raws), Starved, [])"
    by (rule read_lines_waiting)
qed

lemma strip_samples:
  "strip ''/ISK5'' = ''/ISK5''" "strip [] = []"
  "strip ''1-0:1.8.1(5)  '' = ''1-0:1.8.1(5)''" "strip '' !AB '' = ''!AB''"
  by code_simp+

text \<open>
  Witness for C4: a header, an empty line, a data line and a trailer, followed by the
  first line of the next telegram; and a header with an empty line only.
\<close>

theorem framer_contract_witness:
  "\<not> startswith (strip ''/ISK5'') ''!'' \<and> \<not> startswith (strip []) ''!'' \<and>
   \<not> startswith (strip ''1-0:1.8.1(5)  '') ''!'' \<and> startswith (strip '' !AB '') ''!'' \<and>
   read_lines [] (map Rx [''/ISK5'', [], ''1-0:1.8.1(5)  '', '' !AB '', ''/next''])
     = (''/ISK5'' @ CRLF @ ''1-0:1.8.1(5)'' @ CRLF @ ''!AB'', Found, [Rx ''/next'']) \<and>
   fst (snd (read_lines [] (map Rx [''/ISK5'', [], ''1-0:1.8.1(5)  '', '' !AB '', ''/next'']))) = Found \<and>
   read_lines [] (map Rx [''/ISK5'', []]) = (''/ISK5'' @ CRLF, Starved, [])"
proof -
  have pre: "\<forall>r \<in> set [''/ISK5'', [], ''1-0:1.8.1(5)  '']. \<not> startswith (strip r) ''!''"
    by (simp add: strip_samples startswith_def)
  have tr: "startswith (strip '' !AB '') ''!''"
    by (simp add: strip_samples startswith_def)
  have dec: "[''/ISK5'', [], ''1-0:1.8.1(5)  '', '' !AB '', ''/next'']
               = [''/ISK5'', [], ''1-0:1.8.1(5)  ''] @ '' !AB '' # [''/next'']" by simp
  from framer_contract [of "[]" "[''/ISK5'', [], ''1-0:1.8.1(5)  '', '' !AB '', ''/next'']"]
  have all: "\<forall>pre tr rest.
      [''/ISK5'', [], ''1-0:1.8.1(5)  '', '' !AB '', ''/next''] = pre @ tr # rest
        \<and> (\<forall>r \<in> set pre. \<not> startswith (strip r) ''!'') \<and> startswith (strip tr) ''!''
      \<longrightarrow> read_lines [] (map Rx [''/ISK5'', [], ''1-0:1.8.1(5)  '', '' !AB '', ''/next''])
            = ([] @ content_lines (map strip pre) @ strip tr, Found, map Rx rest)"
    by blast
  from all dec pre tr
  have "read_lines [] (map Rx [''/ISK5'', [], ''1-0:1.8.1(5)  '', '' !AB '', ''/next''])
          = ([] @ content_lines (map strip [''/ISK5'', [], ''1-0:1.8.1(5)  '']) @ strip '' !AB '',
             Found, map Rx [''/next''])"
    by blast
  then have a: "read_lines [] (map Rx [''/ISK5'', [], ''1-0:1.8.1(5)  '', '' !AB '', ''/next''])
     = (''/ISK5'' @ CRLF @ ''1-0:1.8.1(5)'' @ CRLF @ ''!AB'', Found, [Rx ''/next''])"
    by (simp add: strip_samples content_lines_def)
  have "\<forall>r \<in> set [''/ISK5'', []]. \<not> startswith (strip r) ''!''"
    by (simp add: strip_samples startswith_def)
  with framer_contract [of "[]" "[''/ISK5'', []]"]
  have "read_lines [] (map Rx [''/ISK5'', []])
          = ([] @ content_lines (map strip [''/ISK5'', []]), Starved, [])"
    by blast
  then have b: "read_lines [] (map Rx [''/ISK5'', []]) = (''/ISK5'' @ CRLF, Starved, [])"
    by (simp add: strip_samples content_lines_def)
  from pre tr a b show ?thesis by simp
qed

section \<open>Reads that time out\<close>




lemma driver_Nil: "driver [] = ([], Blocked)"
  by (simp add: driver_starved [of "[]" "[]" "[]"])


lemma read_lines_timeout: "read_lines t (Rx [] # es) = read_lines t es"
  by (simp add: strip_Nil feed_def startswith_def)


section \<open>The checksum step\<close>

lemma split_from_char_none:
  "c \<notin> set a \<Longrightarrow> split_from [c] cur a = [rev cur @ a]"
  by (induction a arbitrary: cur) auto

lemma split_from_char_first:
  "c \<notin> set a \<Longrightarrow> split_from [c] cur (a @ c # r) = (rev cur @ a) # split_from [c] [] r"
  by (induction a arbitrary: cur) auto

lemma split_no_marker: "CHR ''!'' \<notin> set a \<Longrightarrow> split a ''!'' = [a]"
  by (simp add: split_def split_from_char_none)

lemma split_first_marker:
  "CHR ''!'' \<notin> set a \<Longrightarrow> split (a @ ''!'' @ r) ''!'' = a # split r ''!''"
  by (simp add: split_def split_from_char_first)



lemma given_checksum_no_marker:
  "CHR ''!'' \<notin> set t \<Longrightarrow> given_checksum t = Inl IndexError"
  by (simp add: given_checksum_def split_no_marker)


lemma calculated_checksum_body:
  "CHR ''!'' \<notin> set a \<Longrightarrow> calculated_checksum (a @ ''!'' @ r) = crc16 (encode_utf8 a)"
  using split_first_marker [of a r] by (simp add: calculated_checksum_def)


text \<open>
  C10: in a telegram with more than one exclamation mark, \<open>a\<close> being the text
  before the first and \<open>b\<close> the text between the first and the second, the claimed
  checksum is parsed from \<open>b\<close> and the CRC is computed over \<open>a\<close>, wherever the trailer
  line is.
\<close>

theorem split_at_first_marker:
  assumes "CHR ''!'' \<notin> set a" and "CHR ''!'' \<notin> set b"
  shows "given_checksum (a @ ''!'' @ b @ ''!'' @ c)
           = (case int16 (''0x'' @ b) of None \<Rightarrow> Inl ValueError | Some v \<Rightarrow> Inr v) \<and>
         calculated_checksum (a @ ''!'' @ b @ ''!'' @ c) = crc16 (encode_utf8 a)"
proof -
  have "split (a @ ''!'' @ b @ ''!'' @ c) ''!'' = a # b # split c ''!''"
    by (simp only: split_first_marker [OF assms(1)] split_first_marker [OF assms(2)])
  then have "given_checksum (a @ ''!'' @ b @ ''!'' @ c)
           = (case int16 (''0x'' @ b) of None \<Rightarrow> Inl ValueError | Some v \<Rightarrow> Inr v)"
    by (simp add: given_checksum_def)
  with calculated_checksum_body [OF assms(1)] show ?thesis by blast
qed

text \<open>
  Witness for C10: a data line whose value holds an exclamation mark followed by
  \<open>12\<close>. The claimed checksum is 0x12, not the 0xABCD of the trailer line, and the CRC
  covers the text up to the middle of the data line.
\<close>

theorem split_at_first_marker_witness:
  "CHR ''!'' \<notin> set (''/ISK5'' @ CRLF @ ''0-0:96.13.0(A'') \<and>
   CHR ''!'' \<notin> set (''12'' @ CRLF) \<and>
   given_checksum ((''/ISK5'' @ CRLF @ ''0-0:96.13.0(A'') @ ''!'' @ (''12'' @ CRLF) @ ''!'' @ ''ABCD'')
     = Inr 18 \<and>
   calculated_checksum ((''/ISK5'' @ CRLF @ ''0-0:96.13.0(A'') @ ''!'' @ (''12'' @ CRLF) @ ''!'' @ ''ABCD'')
     = crc16 (encode_utf8 (''/ISK5'' @ CRLF @ ''0-0:96.13.0(A''))"
proof -
  have a: "CHR ''!'' \<notin> set (''/ISK5'' @ CRLF @ ''0-0:96.13.0(A'')"
    by (simp add: CRLF_def CR_def LF_def)
  have b: "CHR ''!'' \<notin> set (''12'' @ CRLF)"
    by (simp add: CRLF_def CR_def LF_def)
  have g: "int16 (''0x'' @ ''12'' @ CRLF) = Some 18" by code_simp
  from split_at_first_marker [OF a b, of "''ABCD''"] a b show ?thesis
    by (simp only: g option.case) simp
qed

















text \<open>
  After a read has raised, the handler prints and the code goes on to the checksum step
  with the telegram read so far. Without an exclamation mark in it, line 141 raises
  \<open>IndexError\<close>.
\<close>

lemma missing_trailer_raises:
  assumes "read_lines [] es = (telegram, Raised, rest)" and "CHR ''!'' \<notin> set telegram"
  shows "driver es = ([], Crashed IndexError)"
proof -
  from assms(2) have "process_telegram telegram = Inl IndexError"
    by (simp add: process_telegram_def given_checksum_no_marker)
  with driver_crash [OF assms(1)] show ?thesis by simp
qed

section \<open>Decoding\<close>

text \<open>
  Decoding is a total function. When a line yields a data point, the identifier is a
  prefix of the line, and the value holds no parenthesis and no white space at either
  end.
\<close>

lemma decode_line_value:
  assumes "decode_line l = Some (c, v)"
  shows "prefix c l \<and> CHR ''('' \<notin> set v \<and> CHR '')'' \<notin> set v \<and> strip v = v"
proof -
  from assms obtain n where c: "c = take n l"
    and v: "v = strip (replace_char (CHR '')'') (CHR '' '')
                 (replace_char (CHR ''('') (CHR '' '') (drop (length c) l)))"
    by (auto simp: decode_line_def re_match_def split: option.splits)
  have "CHR ''('' \<notin> set (replace_char (CHR '')'') (CHR '' '')
                 (replace_char (CHR ''('') (CHR '' '') (drop (length c) l)))"
    and "CHR '')'' \<notin> set (replace_char (CHR '')'') (CHR '' '')
                 (replace_char (CHR ''('') (CHR '' '') (drop (length c) l)))"
    by (auto simp: replace_char_def)
  with set_strip v have "CHR ''('' \<notin> set v \<and> CHR '')'' \<notin> set v" by blast
  moreover from c have "prefix c l" by (simp add: take_is_prefix)
  moreover from v have "strip v = v" by (simp add: strip_idem)
  ultimately show ?thesis by blast
qed


text \<open>
  A line that matches the pattern of the specification matches the pattern of the code,
  with the same prefix: on such lines the two agree.
\<close>

lemma star_greedy:
  "\<forall>c \<in> set ds. in_cls k c \<Longrightarrow> match_items (Star k # its) s = Some n
   \<Longrightarrow> match_items (Star k # its) (ds @ s) = Some (length ds + n)"
  by (induction ds) auto

lemma star_before_literal:
  assumes "\<not> in_cls k x"
  shows "match_items (Star k # One (Lit x) # its) l = Some n
         \<Longrightarrow> \<exists>ds s m. l = ds @ x # s \<and> (\<forall>c \<in> set ds. in_cls k c)
                  \<and> match_items its s = Some m \<and> n = length ds + 1 + m"
proof (induction l arbitrary: n)
  case Nil
  then show ?case by simp
next
  case (Cons c cs)
  show ?case
  proof (cases "in_cls k c")
    case False
    with Cons.prems obtain m where "c = x" "match_items its cs = Some m" "n = Suc m"
      by (auto split: if_splits)
    then have "c # cs = [] @ x # cs \<and> (\<forall>c \<in> set []. in_cls k c)
                 \<and> match_items its cs = Some m \<and> n = length ([] :: string) + 1 + m"
      by simp
    then show ?thesis by blast
  next
    case True
    with assms have "c \<noteq> x" by auto
    with True Cons.prems obtain n' where
      n': "match_items (Star k # One (Lit x) # its) cs = Some n'" "n = Suc n'"
      by (auto split: option.splits)
    from Cons.IH [OF n'(1)] obtain ds s m where
      "cs = ds @ x # s" "\<forall>c \<in> set ds. in_cls k c" "match_items its s = Some m"
      "n' = length ds + 1 + m"
      by blast
    with True n'(2) have "c # cs = (c # ds) @ x # s \<and> (\<forall>c \<in> set (c # ds). in_cls k c)
                 \<and> match_items its s = Some m \<and> n = length (c # ds) + 1 + m"
      by simp
    then show ?thesis by blast
  qed
qed

lemma plus_is_star:
  "match_items (One k # Star k # its) l = Some n \<Longrightarrow> match_items (Star k # its) l = Some n"
  by (cases l) (auto split: if_splits)

lemma group_step:
  assumes x: "\<not> in_cls Digit x" "in_cls k' x"
    and its: "\<And>s m. match_items its s = Some m \<Longrightarrow> match_items its' s = Some m"
    and m: "match_items (One Digit # Star Digit # One (Lit x) # its) l = Some n"
  shows "match_items (Star Digit # One k' # its') l = Some n"
proof -
  from plus_is_star [OF m] have "match_items (Star Digit # One (Lit x) # its) l = Some n" .
  from star_before_literal [OF x(1) this] obtain ds s m where
    d: "l = ds @ x # s" "\<forall>c \<in> set ds. in_cls Digit c" "match_items its s = Some m"
       "n = length ds + 1 + m"
    by blast
  from its [OF d(3)] x have "match_items (Star Digit # One k' # its') (x # s) = Some (Suc m)"
    by (simp del: in_cls.simps)
  from star_greedy [OF d(2) this] d(1,4) show ?thesis by simp
qed

lemma spec_pattern_matches_obis_pattern:
  assumes "match_items spec_pattern l = Some n"
  shows "match_items obis_pattern l = Some n"
proof -
  have dot: "\<not> in_cls Digit (CHR ''.'')" "in_cls Dot (CHR ''.'')" by (simp_all add: LF_def)
  have colon: "\<not> in_cls Digit (CHR '':'')" "in_cls (Lit (CHR '':'')) (CHR '':'')" by simp_all
  have dash: "\<not> in_cls Digit (CHR ''-'')" "in_cls (Lit (CHR ''-'')) (CHR ''-'')" by simp_all
  have g5: "match_items [One Digit, Star Digit] s = Some m
            \<Longrightarrow> match_items [Star Digit] s = Some m" for s m
    by (rule plus_is_star)
  have g4: "match_items [One Digit, Star Digit, One (Lit (CHR ''.'')), One Digit, Star Digit] s
              = Some m
            \<Longrightarrow> match_items [Star Digit, One Dot, Star Digit] s = Some m" for s m
    by (rule group_step [OF dot g5])
  have g3: "match_items [One Digit, Star Digit, One (Lit (CHR ''.'')), One Digit, Star Digit,
                         One (Lit (CHR ''.'')), One Digit, Star Digit] s = Some m
            \<Longrightarrow> match_items [Star Digit, One Dot, Star Digit, One Dot, Star Digit] s = Some m"
    for s m
    by (rule group_step [OF dot g4])
  have g2: "match_items [One Digit, Star Digit, One (Lit (CHR '':'')), One Digit, Star Digit,
                         One (Lit (CHR ''.'')), One Digit, Star Digit,
                         One (Lit (CHR ''.'')), One Digit, Star Digit] s = Some m
            \<Longrightarrow> match_items [Star Digit, One (Lit (CHR '':'')), Star Digit, One Dot, Star Digit,
                             One Dot, Star Digit] s = Some m"
    for s m
    by (rule group_step [OF colon g3])
  have g1: "match_items [One Digit, Star Digit, One (Lit (CHR ''-'')), One Digit, Star Digit,
                         One (Lit (CHR '':'')), One Digit, Star Digit,
                         One (Lit (CHR ''.'')), One Digit, Star Digit,
                         One (Lit (CHR ''.'')), One Digit, Star Digit] s = Some m
            \<Longrightarrow> match_items [Star Digit, One (Lit (CHR ''-'')), Star Digit, One (Lit (CHR '':'')),
                             Star Digit, One Dot, Star Digit, One Dot, Star Digit] s = Some m"
    for s m
    by (rule group_step [OF dash g2])
  from assms show ?thesis
    unfolding spec_pattern_def obis_pattern_def by (rule g1)
qed

lemma decode_line_on_spec_pattern:
  assumes "match_items spec_pattern l = Some n"
  shows "\<exists>v. decode_line l = Some (take n l, v)"
  using spec_pattern_matches_obis_pattern [OF assms] by (simp add: decode_line_def re_match_def)

section \<open>Evaluation on sample telegrams\<close>

lemma crc16_byte_unfold:
  "crc16_byte crc b =
     crc16_bit (crc16_bit (crc16_bit (crc16_bit (crc16_bit (crc16_bit (crc16_bit (crc16_bit
       (crc XOR b))))))))"
  by (simp add: crc16_byte_def eval_nat_numeral)

lemmas crc16_eval =
  crc16_def crc16_byte_unfold crc16_bit_def encode_utf8_def encode_char_def CRLF_def CR_def LF_def

lemma crc_sample_body:
  "crc16 (encode_utf8 (''/ISK5'' @ CRLF @ ''1-0:1.8.1(000123.456*kWh)'' @ CRLF)) = 7917"
  by (simp add: crc16_eval)

lemma crc_sample_body_marker:
  "crc16 (encode_utf8 ((''/ISK5'' @ CRLF @ ''1-0:1.8.1(000123.456*kWh)'' @ CRLF) @ ''!'')) = 21790"
  by (simp add: crc16_eval)

lemma sample_body_no_marker:
  "CHR ''!'' \<notin> set (''/ISK5'' @ CRLF @ ''1-0:1.8.1(000123.456*kWh)'' @ CRLF)"
  by (simp add: CRLF_def CR_def LF_def)

lemma hex_sample_no_marker: "split ''551E'' ''!'' = [''551E'']"
  by (rule split_no_marker) simp

lemma int16_sample: "int16 ''0x551E'' = Some 21790"
  by (simp add: int16_def to_ascii_def long_from_string_def skip_sign_def skip_prefix_def
      c_isspace_def digit_value_def startswith_def)

lemma read_sample_zero:
  "read_lines [] [Rx ''/ISK5'', Rx ''1-0:1.8.1(000123.456*kWh)'', Rx ''!0000'']
     = ((''/ISK5'' @ CRLF @ ''1-0:1.8.1(000123.456*kWh)'' @ CRLF) @ ''!'' @ ''0000'', Found, [])"
  by code_simp

lemma given_sample_zero:
  "given_checksum ((''/ISK5'' @ CRLF @ ''1-0:1.8.1(000123.456*kWh)'' @ CRLF) @ ''!'' @ ''0000'') = Inr 0"
  by code_simp

lemma publish_sample_zero:
  "publish_telegram ((''/ISK5'' @ CRLF @ ''1-0:1.8.1(000123.456*kWh)'' @ CRLF) @ ''!'' @ ''0000'')
     = [(''p1/electricity/cumulative/consumed/tariff_1'', ''000123.456*kWh'')]"
  by code_simp

text \<open>
  C1 on the code: the telegram with the lines \<open>/ISK5\<close>,
  \<open>1-0:1.8.1(000123.456*kWh)\<close> and \<open>!0000\<close> claims the checksum 0, the calculated one
  is 7917, and the data point is published all the same.
\<close>

theorem wrong_checksum_is_published:
  "given_checksum ((''/ISK5'' @ CRLF @ ''1-0:1.8.1(000123.456*kWh)'' @ CRLF) @ ''!'' @ ''0000'') = Inr 0 \<and>
   calculated_checksum ((''/ISK5'' @ CRLF @ ''1-0:1.8.1(000123.456*kWh)'' @ CRLF) @ ''!'' @ ''0000'') = 7917 \<and>
   process_telegram ((''/ISK5'' @ CRLF @ ''1-0:1.8.1(000123.456*kWh)'' @ CRLF) @ ''!'' @ ''0000'')
     = Inr [(''p1/electricity/cumulative/consumed/tariff_1'', ''000123.456*kWh'')] \<and>
   driver [Rx ''/ISK5'', Rx ''1-0:1.8.1(000123.456*kWh)'', Rx ''!0000'']
     = ([(''p1/electricity/cumulative/consumed/tariff_1'', ''000123.456*kWh'')], Blocked)"
proof (intro conjI)
  show "given_checksum ((''/ISK5'' @ CRLF @ ''1-0:1.8.1(000123.456*kWh)'' @ CRLF) @ ''!'' @ ''0000'') = Inr 0"
    by (rule given_sample_zero)
  show "calculated_checksum ((''/ISK5'' @ CRLF @ ''1-0:1.8.1(000123.456*kWh)'' @ CRLF) @ ''!'' @ ''0000'') = 7917"
    by (simp only: calculated_checksum_body [OF sample_body_no_marker] crc_sample_body)
  show p: "process_telegram ((''/ISK5'' @ CRLF @ ''1-0:1.8.1(000123.456*kWh)'' @ CRLF) @ ''!'' @ ''0000'')
     = Inr [(''p1/electricity/cumulative/consumed/tariff_1'', ''000123.456*kWh'')]"
    by (simp only: process_telegram_passes [OF given_sample_zero zero_has_text] publish_sample_zero)
  have "driver [Rx ''/ISK5'', Rx ''1-0:1.8.1(000123.456*kWh)'', Rx ''!0000'']
          = ([(''p1/electricity/cumulative/consumed/tariff_1'', ''000123.456*kWh'')] @ fst (driver []),
             snd (driver []))"
    by (rule driver_next [OF read_sample_zero _ p]) simp
  then show "driver [Rx ''/ISK5'', Rx ''1-0:1.8.1(000123.456*kWh)'', Rx ''!0000'']
     = ([(''p1/electricity/cumulative/consumed/tariff_1'', ''000123.456*kWh'')], Blocked)"
    unfolding driver_Nil by simp
qed

text \<open>
  C2 on the code: for the same lines with the trailer \<open>!551E\<close>, the calculated
  checksum is the CRC of the text before the exclamation mark, 7917 (0x1EED). The CRC of
  the text up to and including the exclamation mark is 21790 (0x551E), the value the
  trailer claims.
\<close>

theorem checksum_leaves_marker_out:
  "calculated_checksum ((''/ISK5'' @ CRLF @ ''1-0:1.8.1(000123.456*kWh)'' @ CRLF) @ ''!'' @ ''551E'')
     = crc16 (encode_utf8 (''/ISK5'' @ CRLF @ ''1-0:1.8.1(000123.456*kWh)'' @ CRLF)) \<and>
   crc16 (encode_utf8 (''/ISK5'' @ CRLF @ ''1-0:1.8.1(000123.456*kWh)'' @ CRLF)) = 7917 \<and>
   crc16 (encode_utf8 ((''/ISK5'' @ CRLF @ ''1-0:1.8.1(000123.456*kWh)'' @ CRLF) @ ''!'')) = 21790 \<and>
   given_checksum ((''/ISK5'' @ CRLF @ ''1-0:1.8.1(000123.456*kWh)'' @ CRLF) @ ''!'' @ ''551E'') = Inr 21790"
proof (intro conjI)
  show "calculated_checksum ((''/ISK5'' @ CRLF @ ''1-0:1.8.1(000123.456*kWh)'' @ CRLF) @ ''!'' @ ''551E'')
     = crc16 (encode_utf8 (''/ISK5'' @ CRLF @ ''1-0:1.8.1(000123.456*kWh)'' @ CRLF))"
    by (rule calculated_checksum_body [OF sample_body_no_marker])
  show "crc16 (encode_utf8 (''/ISK5'' @ CRLF @ ''1-0:1.8.1(000123.456*kWh)'' @ CRLF)) = 7917"
    by (rule crc_sample_body)
  show "crc16 (encode_utf8 ((''/ISK5'' @ CRLF @ ''1-0:1.8.1(000123.456*kWh)'' @ CRLF) @ ''!'')) = 21790"
    by (rule crc_sample_body_marker)
  have sp: "split ((''/ISK5'' @ CRLF @ ''1-0:1.8.1(000123.456*kWh)'' @ CRLF) @ ''!'' @ ''551E'') ''!''
          = [''/ISK5'' @ CRLF @ ''1-0:1.8.1(000123.456*kWh)'' @ CRLF, ''551E'']"
    by (simp only: split_first_marker [OF sample_body_no_marker] hex_sample_no_marker)
  show "given_checksum ((''/ISK5'' @ CRLF @ ''1-0:1.8.1(000123.456*kWh)'' @ CRLF) @ ''!'' @ ''551E'') = Inr 21790"
    unfolding given_checksum_def Let_def sp by (simp add: int16_sample)
qed

text \<open>
  C5 on the code: the line \<open>1-0:1.8(5)\<close> has two groups after the colon, not three,
  and does not match the pattern of the specification. It still yields a data point,
  whose identifier runs into the parenthesis; so does the line \<open>-:ab\<close>, which has
  no digit at all.
\<close>

theorem loose_pattern_decodes_noise:
  "match_items spec_pattern ''1-0:1.8(5)'' = None \<and>
   decode_line ''1-0:1.8(5)'' = Some (''1-0:1.8(5'', []) \<and>
   publish_line ''1-0:1.8(5)'' = [(''p1/unidentified_code/1-0:1.8(5'', [])] \<and>
   match_items spec_pattern ''-:ab'' = None \<and>
   decode_line ''-:ab'' = Some (''-:ab'', [])"
  by code_simp

end
